theory Spec2Isabelle
  imports Complex_Main
begin

section \<open>Values of the program\<close>

text \<open>
  The App (src/src/App.tsx) receives and sends values typed \<open>any\<close>: payloads of the
  protocol, data of the presentation components. They are modelled as plain data: JSON
  values and \<open>undefined\<close>. An object is the list of its own properties, in insertion
  order.

  Numbers: a finite IEEE double is a real number, and \<open>Math.floor\<close>, the comparison
  with \<open>===\<close> and \<open>length - 1\<close> are exact on them. The product of two doubles is
  rounded; it is not computed here but taken from the environment (\<open>multiply\<close> below).
  A decimal literal of the source (\<open>0.1\<close>) is written as the same decimal. \<open>NaN\<close>,
  the infinities and the negative zero are not values of the model; JSON has none of
  them.

  Strings: a \<open>string\<close> holds the UTF-8 bytes of the JavaScript string.
\<close>

datatype jsval =
    JUndefined
  | JNull
  | JBool bool
  | JNum real
  | JStr string
  | JArr "jsval list"
  | JObj "(string \<times> jsval) list"

text \<open>
  \<open>TypeError\<close> is the exception the runtime throws on a property read of
  \<open>undefined\<close> or \<open>null\<close> and on a call of something that is not a function.
  \<open>Rejection\<close> is the exception an \<open>await\<close> throws when its promise rejects.
  \<open>Unmodelled\<close> is no exception of the program: the model stops there, because the
  source goes on with a coercion (a non-number to a number, a non-string to a string, a
  property of a primitive or of an array read by name) whose result is not described here.
\<close>

datatype error = TypeError | Rejection jsval | Unmodelled

text \<open>
  \<open>v.k\<close>, and \<open>const {k} = v\<close>, for an object \<open>v\<close> and a property name \<open>k\<close> that
  no prototype defines, as are all the names that the App reads from objects
  (\<open>frame\<close>, \<open>parentId\<close>, \<open>sessionId\<close>, \<open>data\<close>, \<open>metadata\<close>, \<open>url\<close>, \<open>title\<close>,
  \<open>settings\<close>, \<open>startUrl\<close>, \<open>verbose\<close>, \<open>currentIndex\<close>, \<open>entries\<close>, \<open>action\<close>,
  \<open>params\<close>, \<open>width\<close>, \<open>height\<close>): the own property, or \<open>undefined\<close>. On
  \<open>undefined\<close> and \<open>null\<close> the read throws. Arrays and primitives have properties of
  their own kind (\<open>entries\<close> is a method of every array) and are left out.
\<close>

fun get :: "jsval \<Rightarrow> string \<Rightarrow> error + jsval" where
  "get JUndefined k = Inl TypeError"
| "get JNull k = Inl TypeError"
| "get (JObj kvs) k = (case map_of kvs k of Some v \<Rightarrow> Inr v | None \<Rightarrow> Inr JUndefined)"
| "get v k = Inl Unmodelled"

text \<open>ToBoolean, as \<open>!v\<close>, \<open>v || w\<close> and \<open>if (v)\<close> apply it.\<close>

fun truthy :: "jsval \<Rightarrow> bool" where
  "truthy JUndefined = False"
| "truthy JNull = False"
| "truthy (JBool b) = b"
| "truthy (JNum x) = (x \<noteq> 0)"
| "truthy (JStr s) = (s \<noteq> [])"
| "truthy (JArr xs) = True"
| "truthy (JObj kvs) = True"

text \<open>\<open>v || w\<close>\<close>

definition js_or :: "jsval \<Rightarrow> jsval \<Rightarrow> jsval" where
  "js_or v w = (if truthy v then v else w)"

text \<open>\<open>Math.floor(v)\<close>, for a number \<open>v\<close>.\<close>

fun Math_floor :: "jsval \<Rightarrow> error + jsval" where
  "Math_floor (JNum x) = Inr (JNum (of_int \<lfloor>x\<rfloor>))"
| "Math_floor v = Inl Unmodelled"

section \<open>The App: state and effects\<close>

record ViewportMetadata =
  height :: jsval
  width :: jsval
  isLoading :: bool
  loadingPercent :: real

record History =
  canGoBack :: bool
  canGoForward :: bool

text \<open>
  \<open>IState\<close>. The fields that the source assigns from values typed \<open>any\<close>
  (\<open>url\<close>, \<open>verbose\<close>, \<open>frame\<close>, \<open>width\<close>, \<open>height\<close>) hold whatever was assigned.
\<close>

record IState =
  frame :: jsval
  url :: jsval
  verbose :: jsval
  viewportMetadata :: ViewportMetadata
  history :: History

text \<open>
  What the App does to its collaborators. A call of \<open>connection.send\<close> carries what
  the App attached to the returned promise: nothing (\<open>Ignore\<close>), the rest of
  \<open>requestNavigationHistory\<close> after its \<open>await\<close>, or the \<open>then\<close> callback of the
  \<open>size\<close> case, which closes over \<open>data\<close>.
\<close>

datatype cont = Ignore | AwaitNavigationHistory | ThenSize jsval

datatype handler =
    OnFrameNavigated
  | OnLoadEventFired
  | OnScreencastFrame
  | OnWindowOpen
  | OnAppConfiguration

datatype effect =
    Send string jsval cont
  | On string handler
  | SetLoggingMode jsval
  | SetTimeout nat

text \<open>
  The result of running one callback of the App: the state it leaves, the effects in the
  order they happened, and the exception that ended it, if any. \<open>setState\<close> is applied
  at once, as React 16 does for a call outside its own event handlers (a callback of the
  connection, a promise continuation, a timer); in the two callbacks of the presentation
  components nothing reads the state after \<open>setState\<close>.
\<close>

record outcome =
  state :: IState
  effects :: "effect list"
  raised :: "error option"

definition returns :: "IState \<Rightarrow> effect list \<Rightarrow> outcome" where
  "returns st es = \<lparr>state = st, effects = es, raised = None\<rparr>"

definition throws :: "error \<Rightarrow> IState \<Rightarrow> effect list \<Rightarrow> outcome" where
  "throws e st es = \<lparr>state = st, effects = es, raised = Some e\<rparr>"

text \<open>
  What the App reads from its surroundings: \<open>window.devicePixelRatio\<close>, and the
  product of two doubles as the runtime rounds it.
\<close>

record env =
  devicePixelRatio :: real
  multiply :: "real \<Rightarrow> real \<Rightarrow> real"

subsection \<open>The constructor and componentDidUpdate\<close>

definition defaultSettings_url :: jsval where
  "defaultSettings_url = JStr ''about:blank''"

definition defaultSettings_verbose :: jsval where
  "defaultSettings_verbose = JBool False"

definition initial_state :: IState where
  "initial_state =
    \<lparr>frame = JNull,
     url = defaultSettings_url,
     verbose = defaultSettings_verbose,
     viewportMetadata = \<lparr>height = JNum 0, width = JNum 0, isLoading = False, loadingPercent = 0\<rparr>,
     history = \<lparr>canGoBack = False, canGoForward = False\<rparr>\<rparr>"

text \<open>
  \<open>requestNavigationHistory\<close> up to its \<open>await\<close>: the command is sent at once, the
  rest of the function runs when the promise settles.
\<close>

definition requestNavigationHistory :: "IState \<Rightarrow> outcome" where
  "requestNavigationHistory st =
    returns st [Send ''Page.getNavigationHistory'' JUndefined AwaitNavigationHistory]"

definition App_constructor :: outcome where
  "App_constructor =
    returns initial_state
      ([SetLoggingMode (verbose initial_state),
        On ''Page.frameNavigated'' OnFrameNavigated,
        On ''Page.loadEventFired'' OnLoadEventFired,
        On ''Page.screencastFrame'' OnScreencastFrame,
        On ''Page.windowOpen'' OnWindowOpen,
        On ''extension.appConfiguration'' OnAppConfiguration,
        Send ''Page.enable'' JUndefined Ignore]
       @ effects (requestNavigationHistory initial_state))"

definition componentDidUpdate :: "IState \<Rightarrow> outcome" where
  "componentDidUpdate st = returns st [SetLoggingMode (verbose st)]"

subsection \<open>The handlers registered by the constructor\<close>

definition onFrameNavigated :: "jsval \<Rightarrow> IState \<Rightarrow> outcome" where
  "onFrameNavigated result st =
    (case get result ''frame'' of
       Inl e \<Rightarrow> throws e st []
     | Inr frame' \<Rightarrow>
        (case get frame' ''parentId'' of
           Inl e \<Rightarrow> throws e st []
         | Inr parentId \<Rightarrow>
            (let isMainFrame = \<not> truthy parentId in
             if isMainFrame then
               (let sent = requestNavigationHistory st in
                returns
                  ((state sent)\<lparr>viewportMetadata :=
                     (viewportMetadata (state sent))\<lparr>isLoading := True, loadingPercent := 0.1\<rparr>\<rparr>)
                  (effects sent))
             else returns st [])))"

definition onLoadEventFired :: "jsval \<Rightarrow> IState \<Rightarrow> outcome" where
  "onLoadEventFired result st =
    returns (st\<lparr>viewportMetadata := (viewportMetadata st)\<lparr>loadingPercent := 1.0\<rparr>\<rparr>)
      [SetTimeout 500]"

text \<open>The callback that \<open>onLoadEventFired\<close> gives to \<open>setTimeout\<close>.\<close>

definition onLoadEventFired_timeout :: "IState \<Rightarrow> outcome" where
  "onLoadEventFired_timeout st =
    returns (st\<lparr>viewportMetadata := (viewportMetadata st)\<lparr>isLoading := False, loadingPercent := 0\<rparr>\<rparr>)
      []"

definition onScreencastFrame :: "jsval \<Rightarrow> IState \<Rightarrow> outcome" where
  "onScreencastFrame result st =
    (case get result ''sessionId'' of
       Inl e \<Rightarrow> throws e st []
     | Inr sessionId \<Rightarrow>
        (case get result ''data'' of
           Inl e \<Rightarrow> throws e st []
         | Inr data \<Rightarrow>
            (case get result ''metadata'' of
               Inl e \<Rightarrow> throws e st []
             | Inr metadata \<Rightarrow>
                 returns
                   (st\<lparr>frame := JObj [(''base64Data'', data), (''metadata'', metadata)]\<rparr>)
                   [Send ''Page.screencastFrameAck'' (JObj [(''sessionId'', sessionId)]) Ignore])))"

definition onWindowOpen :: "jsval \<Rightarrow> IState \<Rightarrow> outcome" where
  "onWindowOpen result st =
    (case get result ''url'' of
       Inl e \<Rightarrow> throws e st []
     | Inr u \<Rightarrow> returns st [Send ''extension.windowOpenRequested'' (JObj [(''url'', u)]) Ignore])"

definition onAppConfiguration :: "jsval \<Rightarrow> IState \<Rightarrow> outcome" where
  "onAppConfiguration result st =
    (case get result ''settings'' of
       Inl e \<Rightarrow> throws e st []
     | Inr settings \<Rightarrow>
        if \<not> truthy settings then returns st []
        else
          (case get settings ''startUrl'' of
             Inl e \<Rightarrow> throws e st []
           | Inr startUrl \<Rightarrow>
              (case get settings ''verbose'' of
                 Inl e \<Rightarrow> throws e st []
               | Inr v \<Rightarrow>
                  (let st' = st\<lparr>url := js_or startUrl defaultSettings_url,
                                 verbose := js_or v defaultSettings_verbose\<rparr>
                   in if truthy startUrl
                      then returns st' [Send ''Page.navigate'' (JObj [(''url'', startUrl)]) Ignore]
                      else returns st' []))))"

fun handle :: "handler \<Rightarrow> jsval \<Rightarrow> IState \<Rightarrow> outcome" where
  "handle OnFrameNavigated = onFrameNavigated"
| "handle OnLoadEventFired = onLoadEventFired"
| "handle OnScreencastFrame = onScreencastFrame"
| "handle OnWindowOpen = onWindowOpen"
| "handle OnAppConfiguration = onAppConfiguration"

subsection \<open>requestNavigationHistory, after the await\<close>

text \<open>
  \<open>/^http:\/\/(.+)/\<close>. The dot matches any character but a line terminator: LF, CR,
  U+2028 and U+2029 (in UTF-8 the bytes E2 80 A8 and E2 80 A9). \<open>dot_plus s\<close> is what
  the greedy \<open>.+\<close> takes at the start of \<open>s\<close>: the longest run free of line
  terminators.
\<close>

fun line_terminator_at_start :: "string \<Rightarrow> bool" where
  "line_terminator_at_start [] = False"
| "line_terminator_at_start (c # cs) =
    (c = CHR 0x0A \<or> c = CHR 0x0D \<or>
     (c = CHR 0xE2 \<and> (take 2 cs = [CHR 0x80, CHR 0xA8] \<or> take 2 cs = [CHR 0x80, CHR 0xA9])))"

fun dot_plus :: "string \<Rightarrow> string" where
  "dot_plus [] = []"
| "dot_plus (c # cs) = (if line_terminator_at_start (c # cs) then [] else c # dot_plus cs)"

text \<open>A string in which no line terminator starts anywhere.\<close>

fun line_terminator_free :: "string \<Rightarrow> bool" where
  "line_terminator_free [] = True"
| "line_terminator_free (c # cs) =
    (\<not> line_terminator_at_start (c # cs) \<and> line_terminator_free cs)"

text \<open>
  \<open>s.match(pattern)\<close> for a string \<open>s\<close>: \<open>None\<close> is the \<open>null\<close> of no match,
  \<open>Some g\<close> a match whose group 1 is \<open>g\<close>. The pattern is anchored, so the only
  attempt is at the start; the group must take at least one character.
\<close>

definition match_pattern :: "string \<Rightarrow> string option" where
  "match_pattern s =
    (if take 7 s = ''http://'' \<and> dot_plus (drop 7 s) \<noteq> []
     then Some (dot_plus (drop 7 s)) else None)"

text \<open>
  \<open>url.match(pattern)\<close> for any value: plain data that is not a string has no method
  \<open>match\<close>, and the call throws.
\<close>

fun url_match :: "jsval \<Rightarrow> error + string option" where
  "url_match (JStr s) = Inr (match_pattern s)"
| "url_match v = Inl TypeError"

text \<open>
  \<open>historyEntries[historyIndex]\<close> for an array and a number: the element when the number
  is an index of the array, \<open>undefined\<close> otherwise.
\<close>

fun js_index :: "jsval \<Rightarrow> jsval \<Rightarrow> error + jsval" where
  "js_index JUndefined i = Inl TypeError"
| "js_index JNull i = Inl TypeError"
| "js_index (JArr xs) (JNum r) =
    (if 0 \<le> r \<and> r = of_int \<lfloor>r\<rfloor> \<and> nat \<lfloor>r\<rfloor> < length xs
     then Inr (xs ! nat \<lfloor>r\<rfloor>) else Inr JUndefined)"
| "js_index v i = Inl Unmodelled"

text \<open>\<open>historyEntries.length\<close>\<close>

fun js_length :: "jsval \<Rightarrow> error + real" where
  "js_length JUndefined = Inl TypeError"
| "js_length JNull = Inl TypeError"
| "js_length (JArr xs) = Inr (of_nat (length xs))"
| "js_length v = Inl Unmodelled"

text \<open>The template literal \<open>`Browser Preview (${panelTitle})`\<close>, for a string.\<close>

fun panel_title :: "jsval \<Rightarrow> error + jsval" where
  "panel_title (JStr s) = Inr (JStr (''Browser Preview ('' @ s @ '')''))"
| "panel_title v = Inl Unmodelled"

definition requestNavigationHistory_resumed :: "jsval \<Rightarrow> IState \<Rightarrow> outcome" where
  "requestNavigationHistory_resumed history' st =
    (if \<not> truthy history' then returns st []
     else
      (case get history' ''currentIndex'' of
         Inl e \<Rightarrow> throws e st []
       | Inr historyIndex \<Rightarrow>
      (case get history' ''entries'' of
         Inl e \<Rightarrow> throws e st []
       | Inr historyEntries \<Rightarrow>
      (case js_index historyEntries historyIndex of
         Inl e \<Rightarrow> throws e st []
       | Inr currentEntry \<Rightarrow>
      (case get currentEntry ''url'' of
         Inl e \<Rightarrow> throws e st []
       | Inr entryUrl \<Rightarrow>
      (case url_match entryUrl of
         Inl e \<Rightarrow> throws e st []
       | Inr match \<Rightarrow>
      (case js_length historyEntries of
         Inl e \<Rightarrow> throws e st []
       | Inr len \<Rightarrow>
        (let url' = (case match of Some g \<Rightarrow> JStr g | None \<Rightarrow> entryUrl);
             st' = st\<lparr>url := url',
                       history := \<lparr>canGoBack = (historyIndex = JNum 0),
                                   canGoForward = (historyIndex = JNum (len - 1))\<rparr>\<rparr>
         in
          (case get currentEntry ''title'' of
             Inl e \<Rightarrow> throws e st' []
           | Inr title \<Rightarrow>
          (case panel_title (js_or title entryUrl) of
             Inl e \<Rightarrow> throws e st' []
           | Inr t \<Rightarrow>
              returns st' [Send ''extension.updateTitle'' (JObj [(''title'', t)]) Ignore]))))))))))"

subsection \<open>stopCasting, startCasting, onViewportChanged\<close>

definition stopCasting :: "IState \<Rightarrow> outcome" where
  "stopCasting st = returns st [Send ''Page.stopScreencast'' JUndefined Ignore]"

text \<open>\<open>Math.floor(v * window.devicePixelRatio)\<close>, for a number \<open>v\<close>.\<close>

fun scaled :: "env \<Rightarrow> jsval \<Rightarrow> error + jsval" where
  "scaled env (JNum x) = Math_floor (JNum (multiply env x (devicePixelRatio env)))"
| "scaled env v = Inl Unmodelled"

definition startCasting :: "env \<Rightarrow> IState \<Rightarrow> outcome" where
  "startCasting env st =
    (case scaled env (width (viewportMetadata st)) of
       Inl e \<Rightarrow> throws e st []
     | Inr maxWidth \<Rightarrow>
        (case scaled env (height (viewportMetadata st)) of
           Inl e \<Rightarrow> throws e st []
         | Inr maxHeight \<Rightarrow>
            returns st
              [Send ''Page.startScreencast''
                 (JObj [(''format'', JStr ''jpeg''),
                        (''maxWidth'', maxWidth),
                        (''maxHeight'', maxHeight)])
                 Ignore]))"

text \<open>
  The callback given to \<open>then\<close> in the \<open>size\<close> case: it runs when the promise of
  \<open>Page.setDeviceMetricsOverride\<close> resolves, and ignores the value.
\<close>

definition onViewportChanged_then :: "env \<Rightarrow> jsval \<Rightarrow> IState \<Rightarrow> outcome" where
  "onViewportChanged_then env data st =
    (case get data ''height'' of
       Inl e \<Rightarrow> throws e st []
     | Inr h \<Rightarrow>
        (case get data ''width'' of
           Inl e \<Rightarrow> throws e st []
         | Inr w \<Rightarrow>
            startCasting env
              (st\<lparr>viewportMetadata := (viewportMetadata st)\<lparr>height := h, width := w\<rparr>\<rparr>)))"

definition onViewportChanged :: "string \<Rightarrow> jsval \<Rightarrow> IState \<Rightarrow> outcome" where
  "onViewportChanged action data st =
    (if action = ''interaction'' then
       (case get data ''action'' of
          Inl e \<Rightarrow> throws e st []
        | Inr (JStr method) \<Rightarrow>
           (case get data ''params'' of
              Inl e \<Rightarrow> throws e st []
            | Inr params \<Rightarrow> returns st [Send method params Ignore])
        | Inr v \<Rightarrow> throws Unmodelled st [])
     else if action = ''size'' then
       (let stopped = stopCasting st in
        case get data ''height'' of
          Inl e \<Rightarrow> throws e (state stopped) (effects stopped)
        | Inr h \<Rightarrow>
       (case Math_floor h of
          Inl e \<Rightarrow> throws e (state stopped) (effects stopped)
        | Inr height' \<Rightarrow>
       (case get data ''width'' of
          Inl e \<Rightarrow> throws e (state stopped) (effects stopped)
        | Inr w \<Rightarrow>
       (case Math_floor w of
          Inl e \<Rightarrow> throws e (state stopped) (effects stopped)
        | Inr width' \<Rightarrow>
           returns (state stopped)
             (effects stopped @
              [Send ''Page.setDeviceMetricsOverride''
                 (JObj [(''deviceScaleFactor'', JNum 2),
                        (''height'', height'),
                        (''mobile'', JBool False),
                        (''width'', width')])
                 (ThenSize data)])))))
     else returns st [])"

subsection \<open>Settled promises\<close>

datatype settlement = Resolved jsval | Rejected jsval

text \<open>
  What the App runs when the promise of one of its \<open>send\<close> calls settles. A rejection
  runs no \<open>then\<close> callback (none of them has a second argument), and makes the
  \<open>await\<close> of \<open>requestNavigationHistory\<close> throw.
\<close>

fun resume :: "env \<Rightarrow> cont \<Rightarrow> settlement \<Rightarrow> IState \<Rightarrow> outcome" where
  "resume env Ignore s st = returns st []"
| "resume env AwaitNavigationHistory (Resolved v) st = requestNavigationHistory_resumed v st"
| "resume env AwaitNavigationHistory (Rejected e) st = throws (Rejection e) st []"
| "resume env (ThenSize data) (Resolved v) st = onViewportChanged_then env data st"
| "resume env (ThenSize data) (Rejected e) st = returns st []"

subsection \<open>onToolbarActionInvoked\<close>

definition onToolbarActionInvoked :: "string \<Rightarrow> jsval \<Rightarrow> IState \<Rightarrow> outcome" where
  "onToolbarActionInvoked action data st =
    (if action = ''forward'' then returns st [Send ''Page.goForward'' JUndefined Ignore]
     else if action = ''backward'' then returns st [Send ''Page.goBackward'' JUndefined Ignore]
     else if action = ''refresh'' then returns st [Send ''Page.reload'' JUndefined Ignore]
     else if action = ''urlChange'' then
       (case get data ''url'' of
          Inl e \<Rightarrow> throws e st []
        | Inr u \<Rightarrow>
            returns (st\<lparr>url := u\<rparr>) [Send ''Page.navigate'' (JObj [(''url'', u)]) Ignore])
     else returns st [])"

subsection \<open>The stored url as the specification words it\<close>

text \<open>
  The specification's reading of the url that \<open>requestNavigationHistory\<close> stores: the
  entry's url "with a leading \<open>http://\<close> prefix removed when present". It is compared
  with \<open>match_pattern\<close>, which follows the source.
\<close>

definition without_http_prefix :: "string \<Rightarrow> string" where
  "without_http_prefix s = (if take 7 s = ''http://'' then drop 7 s else s)"

section \<open>The Connection\<close>

text \<open>
  The App imports its Connection from \<open>./connection\<close>, a file of the repository that
  is not among the sources at hand. The Connection is therefore modelled from the
  specification (its sections 3, 4.1, 6 and 7), one definition per operation. Handlers
  are opaque to the Connection: the type \<open>'h\<close>. A promise returned by \<open>send\<close> is
  identified by the correlation id of its call; what happens is recorded as events.
\<close>

text \<open>
  Modelled from the spec: the outbound message \<open>{id, method, params}\<close> that the missing
  connection module writes to the Transport.
\<close>

record out_message =
  out_id :: nat
  out_method :: string
  out_params :: jsval

text \<open>
  Modelled from the spec: the inbound message
  \<open>{id?, method?, params?, result?, error?}\<close> that the Transport delivers to the missing
  connection module; an absent \<open>params\<close> or \<open>result\<close> is \<open>undefined\<close>.
\<close>

record in_message =
  in_id :: "nat option"
  in_method :: "string option"
  in_params :: jsval
  in_result :: jsval
  in_error :: "jsval option"

text \<open>
  Modelled from the spec: the Pending Call \<open>{id, resolve-callback, reject-callback,
  issuedAt}\<close> of the missing connection module. The two callbacks are those of the
  promise of the call with this id; firing one is the event \<open>Settled\<close> below.
\<close>

record PendingCall =
  pc_id :: nat
  issuedAt :: nat

text \<open>
  Modelled from the spec: what the missing connection module rejects a promise with,
  the error payload of a response or its own connection-closed error.
\<close>

datatype rejection = ErrorPayload jsval | ConnectionClosed

text \<open>
  Modelled from the spec: how the missing connection module settles a promise, resolved
  with the \<open>result\<close> of the response or rejected.
\<close>

datatype promise_result = Resolve jsval | Reject rejection

text \<open>
  Modelled from the spec: the observable effects of the missing connection module. A
  message written to the Transport; the promise of the call with an id settled; a
  \<open>send\<close> that returned a promise already rejected; a handler invoked with a payload;
  a message mirrored to the diagnostic sink, outbound or inbound.
\<close>

datatype 'h event =
    Wrote out_message
  | Settled nat promise_result
  | Refused rejection
  | Invoked 'h jsval
  | TracedOut out_message
  | TracedIn in_message

text \<open>
  Modelled from the spec: the state of the missing connection module, the next
  correlation id, the pending table in the order of the calls, the Handler Registry
  (method name to ordered handlers), the Logging Mode, and the lifecycle state (Open or
  Closed).
\<close>

record 'h Connection =
  nextId :: nat
  pending :: "PendingCall list"
  registry :: "string \<rightharpoonup> 'h list"
  loggingMode :: bool
  closed :: bool

text \<open>
  Modelled from the spec: the constructor of the missing connection module. The
  specification gives neither the first correlation id nor the initial Logging Mode;
  both are parameters. A new Connection is Open, nothing pending, nothing registered.
\<close>

definition new_Connection :: "nat \<Rightarrow> bool \<Rightarrow> 'h Connection" where
  "new_Connection first logging =
    \<lparr>nextId = first, pending = [], registry = Map.empty, loggingMode = logging, closed = False\<rparr>"

text \<open>
  Modelled from the spec: \<open>send(method, params)\<close> of the missing connection module,
  called at time \<open>now\<close>. Open: allocate the next correlation id, build the message,
  register the Pending Call, write the message (mirrored to the sink first when logging).
  Closed: fail fast with the connection-closed error.
\<close>

definition send ::
  "'h Connection \<Rightarrow> nat \<Rightarrow> string \<Rightarrow> jsval \<Rightarrow> 'h event list \<times> 'h Connection" where
  "send c now method params =
    (if closed c then ([Refused ConnectionClosed], c)
     else
       (let i = nextId c;
            msg = \<lparr>out_id = i, out_method = method, out_params = params\<rparr>
        in ((if loggingMode c then [TracedOut msg] else []) @ [Wrote msg],
            c\<lparr>nextId := i + 1, pending := pending c @ [\<lparr>pc_id = i, issuedAt = now\<rparr>]\<rparr>)))"

text \<open>
  Modelled from the spec: \<open>on(method, handler)\<close> of the missing connection module,
  which appends the handler to the sequence for the method, creating it if absent.
\<close>

definition on :: "'h Connection \<Rightarrow> string \<Rightarrow> 'h \<Rightarrow> 'h Connection" where
  "on c method h =
    c\<lparr>registry := (registry c)(method \<mapsto>
        (case registry c method of None \<Rightarrow> [h] | Some hs \<Rightarrow> hs @ [h]))\<rparr>"

text \<open>
  Modelled from the spec: \<open>setLoggingMode(enabled)\<close> of the missing connection module,
  a pure state toggle.
\<close>

definition setLoggingMode :: "'h Connection \<Rightarrow> bool \<Rightarrow> 'h Connection" where
  "setLoggingMode c enabled = c\<lparr>loggingMode := enabled\<rparr>"

text \<open>
  Modelled from the spec: how the missing connection module settles a call from its
  response, resolve with the \<open>result\<close> if no \<open>error\<close> field is present, otherwise
  reject with the error payload.
\<close>

definition settle :: "in_message \<Rightarrow> promise_result" where
  "settle msg =
    (case in_error msg of None \<Rightarrow> Resolve (in_result msg) | Some e \<Rightarrow> Reject (ErrorPayload e))"

text \<open>
  Modelled from the spec: the inbound classification of the missing connection module,
  for an Open Connection (a Closed one classifies nothing). Record the message if
  logging; a message with an id settles and removes the matching Pending Call, or is
  discarded when none matches; otherwise a message with a method name invokes every
  handler registered for it, in order, or is discarded when there is none; anything else
  is discarded.
\<close>

definition receive :: "'h Connection \<Rightarrow> in_message \<Rightarrow> 'h event list \<times> 'h Connection" where
  "receive c msg =
    (if closed c then ([], c)
     else
       (let traced = (if loggingMode c then [TracedIn msg] else []) in
        case in_id msg of
          Some i \<Rightarrow>
            (if i \<in> set (map pc_id (pending c))
             then (traced @ [Settled i (settle msg)],
                   c\<lparr>pending := filter (\<lambda>pc. pc_id pc \<noteq> i) (pending c)\<rparr>)
             else (traced, c))
        | None \<Rightarrow>
            (case in_method msg of
               Some m \<Rightarrow>
                 (case registry c m of
                    Some hs \<Rightarrow> (traced @ map (\<lambda>h. Invoked h (in_params msg)) hs, c)
                  | None \<Rightarrow> (traced, c))
             | None \<Rightarrow> (traced, c))))"

text \<open>
  Modelled from the spec: the transition Open to Closed of the missing connection
  module, when the Transport signals termination. Every still-Pending Call is rejected
  with the connection-closed error and leaves the table. There is no way back.
\<close>

definition terminated :: "'h Connection \<Rightarrow> 'h event list \<times> 'h Connection" where
  "terminated c =
    (if closed c then ([], c)
     else (map (\<lambda>pc. Settled (pc_id pc) (Reject ConnectionClosed)) (pending c),
           c\<lparr>pending := [], closed := True\<rparr>))"

subsection \<open>Runs of a Connection\<close>

text \<open>
  What can happen to a Connection, one discrete step at a time (section 5 of the
  specification): a call of \<open>send\<close>, \<open>on\<close> or \<open>setLoggingMode\<close> by the Controller, an
  inbound message, the termination of the Transport.
\<close>

datatype 'h op =
    CallSend nat string jsval
  | CallOn string 'h
  | CallSetLoggingMode bool
  | Inbound in_message
  | Terminated

fun step :: "'h op \<Rightarrow> 'h Connection \<Rightarrow> 'h event list \<times> 'h Connection" where
  "step (CallSend now method params) c = send c now method params"
| "step (CallOn method h) c = ([], on c method h)"
| "step (CallSetLoggingMode enabled) c = ([], setLoggingMode c enabled)"
| "step (Inbound msg) c = receive c msg"
| "step Terminated c = terminated c"

text \<open>A run gives the events of each step, in order, and the state reached.\<close>

fun run :: "'h op list \<Rightarrow> 'h Connection \<Rightarrow> 'h event list list \<times> 'h Connection" where
  "run [] c = ([], c)"
| "run (op # ops) c =
    (case step op c of (es, c') \<Rightarrow> (case run ops c' of (ess, c'') \<Rightarrow> (es # ess, c'')))"

definition send_op :: "nat \<times> string \<times> jsval \<Rightarrow> 'h op" where
  "send_op cmd = (case cmd of (now, method, params) \<Rightarrow> CallSend now method params)"

definition response :: "nat \<Rightarrow> jsval \<Rightarrow> jsval option \<Rightarrow> in_message" where
  "response i r e =
    \<lparr>in_id = Some i, in_method = None, in_params = JUndefined, in_result = r, in_error = e\<rparr>"

definition notification :: "string \<Rightarrow> jsval \<Rightarrow> in_message" where
  "notification m p =
    \<lparr>in_id = None, in_method = Some m, in_params = p, in_result = JUndefined, in_error = None\<rparr>"

text \<open>The promises settled, the messages written and the handlers invoked by events.\<close>

fun settlements :: "'h event list \<Rightarrow> (nat \<times> promise_result) list" where
  "settlements [] = []"
| "settlements (Settled i r # es) = (i, r) # settlements es"
| "settlements (e # es) = settlements es"

fun writes :: "'h event list \<Rightarrow> out_message list" where
  "writes [] = []"
| "writes (Wrote m # es) = m # writes es"
| "writes (e # es) = writes es"

fun invocations :: "'h event list \<Rightarrow> ('h \<times> jsval) list" where
  "invocations [] = []"
| "invocations (Invoked h p # es) = (h, p) # invocations es"
| "invocations (e # es) = invocations es"

text \<open>The handlers registered for a method by the steps of a run, one per registration.\<close>

fun registered :: "string \<Rightarrow> 'h op list \<Rightarrow> 'h list" where
  "registered m [] = []"
| "registered m (CallOn m' h # ops) = (if m' = m then h # registered m ops else registered m ops)"
| "registered m (op # ops) = registered m ops"

text \<open>What a step does to a Closed Connection: a \<open>send\<close> is refused, nothing else happens.\<close>

fun after_close :: "'h op \<Rightarrow> 'h event list" where
  "after_close (CallSend now method params) = [Refused ConnectionClosed]"
| "after_close op = []"

text \<open>
  What a run shows apart from its tracing: for each step that is not a call of
  \<open>setLoggingMode\<close>, in order, its events other than those of the diagnostic sink. The
  position of a settlement in this list is its timing.
\<close>

fun is_trace :: "'h event \<Rightarrow> bool" where
  "is_trace (TracedOut m) = True"
| "is_trace (TracedIn m) = True"
| "is_trace e = False"

fun is_logging :: "'h op \<Rightarrow> bool" where
  "is_logging (CallSetLoggingMode enabled) = True"
| "is_logging op = False"

fun observe :: "'h op list \<Rightarrow> 'h Connection \<Rightarrow> 'h event list list" where
  "observe [] c = []"
| "observe (op # ops) c =
    (case step op c of (es, c') \<Rightarrow>
       if is_logging op then observe ops c'
       else filter (\<lambda>e. \<not> is_trace e) es # observe ops c')"

text \<open>The handlers of a method in the registry; none when the method is absent.\<close>

definition handlers_of :: "'h Connection \<Rightarrow> string \<Rightarrow> 'h list" where
  "handlers_of c m = (case registry c m of None \<Rightarrow> [] | Some hs \<Rightarrow> hs)"

text \<open>The ids in the pending table are distinct and below the next id.\<close>

definition ids_fresh :: "'h Connection \<Rightarrow> bool" where
  "ids_fresh c =
    (list_all (\<lambda>pc. pc_id pc < nextId c) (pending c) \<and> distinct (map pc_id (pending c)))"

section \<open>Properties of the Connection\<close>

subsection \<open>Events and runs\<close>

lemma settlements_append: "settlements (xs @ ys) = settlements xs @ settlements ys"
  by (induction xs rule: settlements.induct) simp_all

lemma writes_append: "writes (xs @ ys) = writes xs @ writes ys"
  by (induction xs rule: writes.induct) simp_all

lemma invocations_append: "invocations (xs @ ys) = invocations xs @ invocations ys"
  by (induction xs rule: invocations.induct) simp_all

lemma invocations_Invoked: "invocations (map (\<lambda>h. Invoked h p) hs) = map (\<lambda>h. (h, p)) hs"
  by (induction hs) simp_all

lemma writes_Invoked [simp]: "writes (map (\<lambda>h. Invoked h p) hs) = []"
  by (induction hs) simp_all

lemma writes_Settled [simp]: "writes (map (\<lambda>pc. Settled (f pc) r) pcs) = []"
  by (induction pcs) simp_all

lemma settlements_Settled:
  "settlements (map (\<lambda>pc. Settled (pc_id pc) r) pcs) = map (\<lambda>pc. (pc_id pc, r)) pcs"
  by (induction pcs) simp_all

lemma snd_run_Cons: "snd (run (op # ops) c) = snd (run ops (snd (step op c)))"
  by (simp split: prod.split)

lemma fst_run_Cons: "fst (run (op # ops) c) = fst (step op c) # fst (run ops (snd (step op c)))"
  by (simp split: prod.split)

subsection \<open>Correlation ids\<close>

lemma step_ids:
  "nextId c \<le> nextId (snd (step op c)) \<and>
   map out_id (writes (fst (step op c))) = [nextId c ..< nextId (snd (step op c))]"
  by (cases op)
     (simp_all add: send_def on_def setLoggingMode_def receive_def terminated_def Let_def
        split: option.split)

lemma run_ids:
  "nextId c \<le> nextId (snd (run ops c)) \<and>
   map out_id (writes (concat (fst (run ops c)))) = [nextId c ..< nextId (snd (run ops c))]"
proof (induction ops arbitrary: c)
  case Nil
  then show ?case by simp
next
  case (Cons op ops)
  obtain es c' where s: "step op c = (es, c')" by (cases "step op c")
  obtain ess c'' where r: "run ops c' = (ess, c'')" by (cases "run ops c'")
  from step_ids [of c op] s
  have a: "nextId c \<le> nextId c'" "map out_id (writes es) = [nextId c ..< nextId c']" by simp_all
  from Cons.IH [of c'] r
  have b: "nextId c' \<le> nextId c''" "map out_id (writes (concat ess)) = [nextId c' ..< nextId c'']"
    by simp_all
  have "[nextId c ..< nextId c'] @ [nextId c' ..< nextId c''] = [nextId c ..< nextId c'']"
    using a(1) b(1) by (metis le_Suc_ex upt_add_eq_append)
  with a b s r show ?case by (simp add: writes_append)
qed

lemma step_ids_fresh: "ids_fresh c \<Longrightarrow> ids_fresh (snd (step op c))"
  by (cases op)
     (auto simp: ids_fresh_def send_def on_def setLoggingMode_def receive_def terminated_def
        Let_def list_all_iff distinct_map_filter split: option.split)

lemma run_ids_fresh: "ids_fresh c \<Longrightarrow> ids_fresh (snd (run ops c))"
proof (induction ops arbitrary: c)
  case Nil
  then show ?case by simp
next
  case (Cons op ops)
  from step_ids_fresh [OF Cons.prems, of op] Cons.IH [of "snd (step op c)"]
  show ?case by (simp only: snd_run_Cons)
qed

lemma send_fresh:
  "ids_fresh c \<Longrightarrow>
   set (map out_id (writes (fst (send c now method params)))) \<inter> set (map pc_id (pending c)) = {}"
  by (auto simp: ids_fresh_def send_def Let_def list_all_iff)

text \<open>
  C2. Over the lifetime of a Connection, that is for every run from its construction,
  the correlation ids of the commands written are strictly increasing in the order of
  the calls; the ids in the pending table are distinct; and the id that a further
  \<open>send\<close> assigns is the id of no Pending Call still in the table.
\<close>

theorem ids_increasing_never_reused:
  "sorted_wrt (<) (map out_id (writes (concat (fst (run ops (new_Connection first logging))))))
   \<and> distinct (map pc_id (pending (snd (run ops (new_Connection first logging)))))
   \<and> set (map out_id
        (writes (fst (send (snd (run ops (new_Connection first logging))) now method params))))
       \<inter> set (map pc_id (pending (snd (run ops (new_Connection first logging))))) = {}"
    (is "sorted_wrt (<) (map out_id (writes (concat (fst (run ops ?init))))) \<and> _")
proof -
  let ?c = "snd (run ops ?init)"
  have "ids_fresh ?init"
    by (simp add: ids_fresh_def new_Connection_def)
  then have fresh: "ids_fresh ?c" by (rule run_ids_fresh)
  have "sorted_wrt (<) (map out_id (writes (concat (fst (run ops ?init)))))"
    using run_ids [of ?init ops] by (simp add: sorted_wrt_upt)
  moreover from fresh have "distinct (map pc_id (pending ?c))" by (simp add: ids_fresh_def)
  moreover from fresh have "set (map out_id (writes (fst (send ?c now method params))))
       \<inter> set (map pc_id (pending ?c)) = {}" by (rule send_fresh)
  ultimately show ?thesis by blast
qed

subsection \<open>Responses\<close>

lemma sends_state:
  "\<not> closed c \<Longrightarrow>
   \<not> closed (snd (run (map send_op cmds) c)) \<and>
   nextId (snd (run (map send_op cmds) c)) = nextId c + length cmds \<and>
   map pc_id (pending (snd (run (map send_op cmds) c))) =
     map pc_id (pending c) @ [nextId c ..< nextId c + length cmds]"
proof (induction cmds arbitrary: c)
  case Nil
  then show ?case by simp
next
  case (Cons cmd cmds)
  obtain t m p where cmd: "cmd = (t, m, p)" by (cases cmd)
  let ?c' = "snd (step (send_op cmd) c)"
  from Cons.prems cmd have a: "\<not> closed ?c'" "nextId ?c' = nextId c + 1"
    "map pc_id (pending ?c') = map pc_id (pending c) @ [nextId c]"
    by (simp_all add: send_op_def send_def Let_def)
  have u: "[nextId c ..< nextId c + length (cmd # cmds)] =
      nextId c # [nextId c + 1 ..< nextId c + 1 + length cmds]"
    by (simp add: upt_rec)
  from Cons.IH [OF a(1)] a(2,3) show ?case
    by (simp only: list.map snd_run_Cons u) simp
qed

lemma settlements_Invoked [simp]: "settlements (map (\<lambda>h. Invoked h p) hs) = []"
  by (induction hs) simp_all

lemma receive_effect:
  "settlements (fst (receive c r)) =
     (case in_id r of
        Some j \<Rightarrow> if \<not> closed c \<and> j \<in> set (map pc_id (pending c)) then [(j, settle r)] else []
      | None \<Rightarrow> [])
   \<and> closed (snd (receive c r)) = closed c
   \<and> set (map pc_id (pending (snd (receive c r)))) =
     (case in_id r of
        Some j \<Rightarrow> if \<not> closed c then set (map pc_id (pending c)) - {j}
                  else set (map pc_id (pending c))
      | None \<Rightarrow> set (map pc_id (pending c)))"
  by (auto simp: receive_def Let_def settlements_append invocations_append
       split: option.split)

lemma inbound_not_pending:
  "i \<notin> set (map pc_id (pending c)) \<Longrightarrow>
   filter (\<lambda>s. fst s = i) (settlements (concat (fst (run (map Inbound rs) c)))) = []"
proof (induction rs arbitrary: c)
  case Nil
  then show ?case by simp
next
  case (Cons r rs)
  let ?c' = "snd (receive c r)"
  from receive_effect [of c r] Cons.prems
  have a: "filter (\<lambda>s. fst s = i) (settlements (fst (receive c r))) = []"
    "i \<notin> set (map pc_id (pending ?c'))"
    by (auto split: option.splits if_splits)
  from Cons.IH [OF a(2)] a(1) show ?case
    by (simp only: list.map fst_run_Cons step.simps concat.simps settlements_append filter_append)
       simp
qed

lemma inbound_pending:
  "\<not> closed c \<Longrightarrow> i \<in> set (map pc_id (pending c)) \<Longrightarrow>
   filter (\<lambda>s. fst s = i) (settlements (concat (fst (run (map Inbound rs) c)))) =
     (case find (\<lambda>r. in_id r = Some i) rs of None \<Rightarrow> [] | Some r \<Rightarrow> [(i, settle r)])"
proof (induction rs arbitrary: c)
  case Nil
  then show ?case by simp
next
  case (Cons r rs)
  let ?c' = "snd (receive c r)"
  let ?rest = "filter (\<lambda>s. fst s = i) (settlements (concat (fst (run (map Inbound rs) ?c'))))"
  have split: "filter (\<lambda>s. fst s = i) (settlements (concat (fst (run (map Inbound (r # rs)) c)))) =
      filter (\<lambda>s. fst s = i) (settlements (fst (receive c r))) @ ?rest"
    by (simp only: list.map fst_run_Cons step.simps concat.simps settlements_append filter_append)
  show ?case
  proof (cases "in_id r = Some i")
    case True
    from receive_effect [of c r] True Cons.prems
    have "filter (\<lambda>s. fst s = i) (settlements (fst (receive c r))) = [(i, settle r)]"
      "i \<notin> set (map pc_id (pending ?c'))" by auto
    with inbound_not_pending [of i ?c' rs] split True show ?thesis by simp
  next
    case False
    from receive_effect [of c r] False Cons.prems
    have "filter (\<lambda>s. fst s = i) (settlements (fst (receive c r))) = []"
      "\<not> closed ?c'" "i \<in> set (map pc_id (pending ?c'))"
      by (auto split: option.splits if_splits)
    with Cons.IH [of ?c'] split False show ?thesis by simp
  qed
qed

text \<open>
  C1. On an Open Connection whose pending ids are distinct and below the next id (as
  they are in every state reached from a new Connection), let commands be sent one after
  the other, and let inbound messages then arrive, in any order and of any kind
  (responses, also repeated ones and ones for ids never issued, and notifications),
  among them at least one response for the id of each call. The calls were assigned
  consecutive ids in the order of the calls, and no two Pending Calls share an id, so
  that an id names one promise; and for each call there is exactly one settlement of
  its promise, with the outcome that the first response carrying its id conveys
  (resolved with its result, or rejected with its error payload), whatever else arrived
  before or after.
\<close>

theorem each_call_settles_once_with_its_own_payload:
  assumes "\<not> closed c"
    and "ids_fresh c"
    and "\<forall>i \<in> {nextId c ..< nextId c + length cmds}. Some i \<in> set (map in_id rs)"
  shows "map out_id (writes (concat (fst (run (map send_op cmds) c)))) =
           [nextId c ..< nextId c + length cmds]
    \<and> distinct (map pc_id (pending (snd (run (map send_op cmds) c))))
    \<and> (\<forall>i \<in> {nextId c ..< nextId c + length cmds}.
          \<exists>r. find (\<lambda>r. in_id r = Some i) rs = Some r \<and>
            filter (\<lambda>s. fst s = i)
              (settlements (concat (fst (run (map Inbound rs) (snd (run (map send_op cmds) c))))))
            = [(i, settle r)])"
proof -
  let ?c' = "snd (run (map send_op cmds) c)"
  from sends_state [OF assms(1), of cmds]
  have a: "\<not> closed ?c'" "nextId ?c' = nextId c + length cmds"
    "map pc_id (pending ?c') = map pc_id (pending c) @ [nextId c ..< nextId c + length cmds]"
    by simp_all
  from run_ids [of c "map send_op cmds"] a(2)
  have ids: "map out_id (writes (concat (fst (run (map send_op cmds) c)))) =
      [nextId c ..< nextId c + length cmds]" by simp
  have once: "\<forall>i \<in> {nextId c ..< nextId c + length cmds}.
      \<exists>r. find (\<lambda>r. in_id r = Some i) rs = Some r \<and>
        filter (\<lambda>s. fst s = i) (settlements (concat (fst (run (map Inbound rs) ?c'))))
        = [(i, settle r)]"
  proof
    fix i assume i: "i \<in> {nextId c ..< nextId c + length cmds}"
    with a(3) have p: "i \<in> set (map pc_id (pending ?c'))" by simp
    from i assms(3) have "Some i \<in> set (map in_id rs)" by blast
    then obtain r where r: "find (\<lambda>r. in_id r = Some i) rs = Some r"
      by (cases "find (\<lambda>r. in_id r = Some i) rs") (auto simp: find_None_iff)
    from inbound_pending [OF a(1) p, of rs] r
    show "\<exists>r. find (\<lambda>r. in_id r = Some i) rs = Some r \<and>
        filter (\<lambda>s. fst s = i) (settlements (concat (fst (run (map Inbound rs) ?c'))))
        = [(i, settle r)]" by simp
  qed
  from run_ids_fresh [OF assms(2), of "map send_op cmds"]
  have "distinct (map pc_id (pending ?c'))" by (simp add: ids_fresh_def)
  with ids once show ?thesis by simp
qed

theorem each_call_settles_once_with_its_own_payload_witness:
  "filter (\<lambda>s. fst s = 7) (settlements (concat (fst (run
      (map Inbound [response 9 (JObj []) None,
                    notification ''Page.loadEventFired'' JUndefined,
                    response 7 JNull None,
                    response 9 (JStr ''again'') None,
                    response 8 JUndefined (Some (JStr ''no such page''))])
      (snd (run (map send_op [(0, ''Page.enable'', JUndefined), (1, ''Page.reload'', JUndefined),
                              (2, ''Page.goBackward'', JUndefined)])
             (new_Connection 7 False :: handler Connection))))))) = [(7, Resolve JNull)]
   \<and> filter (\<lambda>s. fst s = 8) (settlements (concat (fst (run
      (map Inbound [response 9 (JObj []) None,
                    notification ''Page.loadEventFired'' JUndefined,
                    response 7 JNull None,
                    response 9 (JStr ''again'') None,
                    response 8 JUndefined (Some (JStr ''no such page''))])
      (snd (run (map send_op [(0, ''Page.enable'', JUndefined), (1, ''Page.reload'', JUndefined),
                              (2, ''Page.goBackward'', JUndefined)])
             (new_Connection 7 False :: handler Connection))))))) =
       [(8, Reject (ErrorPayload (JStr ''no such page'')))]
   \<and> filter (\<lambda>s. fst s = 9) (settlements (concat (fst (run
      (map Inbound [response 9 (JObj []) None,
                    notification ''Page.loadEventFired'' JUndefined,
                    response 7 JNull None,
                    response 9 (JStr ''again'') None,
                    response 8 JUndefined (Some (JStr ''no such page''))])
      (snd (run (map send_op [(0, ''Page.enable'', JUndefined), (1, ''Page.reload'', JUndefined),
                              (2, ''Page.goBackward'', JUndefined)])
             (new_Connection 7 False :: handler Connection))))))) = [(9, Resolve (JObj []))]"
proof -
  have "{7..<7 + 3} = {7, 8, 9::nat}" by auto
  then show ?thesis
    using each_call_settles_once_with_its_own_payload
       [of "new_Connection 7 False :: handler Connection"
           "[(0, ''Page.enable'', JUndefined), (1, ''Page.reload'', JUndefined),
             (2, ''Page.goBackward'', JUndefined)]"
           "[response 9 (JObj []) None,
             notification ''Page.loadEventFired'' JUndefined,
             response 7 JNull None,
             response 9 (JStr ''again'') None,
             response 8 JUndefined (Some (JStr ''no such page''))]"]
    by (simp add: new_Connection_def ids_fresh_def response_def notification_def settle_def)
qed

subsection \<open>Handlers\<close>

lemma step_handlers:
  "op \<noteq> Terminated \<Longrightarrow> \<not> closed c \<Longrightarrow>
   \<not> closed (snd (step op c)) \<and>
   handlers_of (snd (step op c)) m = handlers_of c m @ registered m [op]"
  by (cases op)
     (auto simp: handlers_of_def send_def on_def setLoggingMode_def receive_def Let_def
        split: option.split)

lemma registered_Cons: "registered m (op # ops) = registered m [op] @ registered m ops"
  by (cases op) simp_all

lemma run_handlers:
  "Terminated \<notin> set ops \<Longrightarrow> \<not> closed c \<Longrightarrow>
   \<not> closed (snd (run ops c)) \<and>
   handlers_of (snd (run ops c)) m = handlers_of c m @ registered m ops"
proof (induction ops arbitrary: c)
  case Nil
  then show ?case by simp
next
  case (Cons op ops)
  from Cons.prems have "op \<noteq> Terminated" "Terminated \<notin> set ops" by auto
  from step_handlers [OF this(1) Cons.prems(2), of m]
  have a: "\<not> closed (snd (step op c))"
    "handlers_of (snd (step op c)) m = handlers_of c m @ registered m [op]" by simp_all
  from Cons.IH [OF \<open>Terminated \<notin> set ops\<close> a(1)] a(2)
  show ?case
    by (simp only: snd_run_Cons registered_Cons [of m op ops] append_assoc) simp
qed

lemma receive_notification:
  "\<not> closed c \<Longrightarrow> in_id msg = None \<Longrightarrow> in_method msg = Some m \<Longrightarrow>
   invocations (fst (receive c msg)) = map (\<lambda>h. (h, in_params msg)) (handlers_of c m)"
  by (simp add: receive_def handlers_of_def invocations_append invocations_Invoked Let_def
        split: option.split)

text \<open>
  C3. After any steps on a new Connection that do not close it, an event notification
  for a method name invokes the handlers registered for that name by \<open>on\<close>, each with
  the payload of the notification, once per registration and in the order of the
  registrations: two handlers registered are both invoked, in order, and a handler
  registered twice is invoked twice.
\<close>

theorem handlers_fire_in_registration_order:
  assumes "Terminated \<notin> set ops"
    and "in_id msg = None"
    and "in_method msg = Some m"
  shows "invocations (fst (receive (snd (run ops (new_Connection first logging))) msg)) =
           map (\<lambda>h. (h, in_params msg)) (registered m ops)"
    (is "invocations (fst (receive (snd (run ops ?init)) msg)) = _")
proof -
  have "\<not> closed ?init" "handlers_of ?init m = []"
    by (simp_all add: new_Connection_def handlers_of_def)
  with run_handlers [OF assms(1), of ?init m]
  have "\<not> closed (snd (run ops ?init))" "handlers_of (snd (run ops ?init)) m = registered m ops"
    by simp_all
  with receive_notification [OF _ assms(2,3), of "snd (run ops ?init)"] show ?thesis by simp
qed

theorem handlers_fire_in_registration_order_witness:
  "invocations (fst (receive
      (snd (run [CallOn ''Page.loadEventFired'' OnLoadEventFired,
                 CallSend 0 ''Page.enable'' JUndefined,
                 CallOn ''Page.loadEventFired'' OnFrameNavigated,
                 CallOn ''Page.windowOpen'' OnWindowOpen,
                 CallOn ''Page.loadEventFired'' OnLoadEventFired]
             (new_Connection 1 False)))
      (notification ''Page.loadEventFired'' (JObj [(''timestamp'', JNum 5)])))) =
   [(OnLoadEventFired, JObj [(''timestamp'', JNum 5)]),
    (OnFrameNavigated, JObj [(''timestamp'', JNum 5)]),
    (OnLoadEventFired, JObj [(''timestamp'', JNum 5)])]"
  using handlers_fire_in_registration_order
     [of "[CallOn ''Page.loadEventFired'' OnLoadEventFired,
           CallSend 0 ''Page.enable'' JUndefined,
           CallOn ''Page.loadEventFired'' OnFrameNavigated,
           CallOn ''Page.windowOpen'' OnWindowOpen,
           CallOn ''Page.loadEventFired'' OnLoadEventFired]"
         "notification ''Page.loadEventFired'' (JObj [(''timestamp'', JNum 5)])"
         "''Page.loadEventFired''" 1 False]
  by (simp add: notification_def)

subsection \<open>Termination of the Transport\<close>

lemma step_closed_events:
  "closed c \<Longrightarrow> fst (step op c) = after_close op \<and> closed (snd (step op c))"
  by (cases op) (simp_all add: send_def on_def setLoggingMode_def receive_def terminated_def)

lemma run_closed: "closed c \<Longrightarrow> fst (run ops c) = map after_close ops"
proof (induction ops arbitrary: c)
  case Nil
  then show ?case by simp
next
  case (Cons op ops)
  from step_closed_events [OF Cons.prems, of op] Cons.IH [of "snd (step op c)"]
  show ?case by (simp only: fst_run_Cons) simp
qed

lemma settlements_after_close: "settlements (concat (map after_close ops)) = []"
proof (induction ops)
  case Nil
  then show ?case by simp
next
  case (Cons op ops)
  then show ?case by (cases op) simp_all
qed

text \<open>
  C4. When the Transport terminates on an Open Connection, every Pending Call in the
  table, all N of them, is rejected with the connection-closed error, and the table is
  empty. Whatever happens afterwards, each call of \<open>send\<close> is refused at once with the
  connection-closed error and writes nothing, no other step has any effect to show,
  and no promise is settled any more, so none resolves.
\<close>

theorem termination_rejects_all_pending:
  assumes "\<not> closed c"
  shows "settlements (fst (step Terminated c)) =
           map (\<lambda>pc. (pc_id pc, Reject ConnectionClosed)) (pending c)
    \<and> pending (snd (step Terminated c)) = []
    \<and> fst (run ops (snd (step Terminated c))) = map after_close ops
    \<and> settlements (concat (fst (run ops (snd (step Terminated c))))) = []"
proof -
  have c: "closed (snd (step Terminated c))" by (simp add: terminated_def)
  have "fst (run ops (snd (step Terminated c))) = map after_close ops"
    using c by (rule run_closed)
  moreover from this have "settlements (concat (fst (run ops (snd (step Terminated c))))) = []"
    by (simp only: settlements_after_close)
  moreover have "settlements (fst (step Terminated c)) =
      map (\<lambda>pc. (pc_id pc, Reject ConnectionClosed)) (pending c)"
    using assms by (simp add: terminated_def settlements_Settled)
  moreover have "pending (snd (step Terminated c)) = []"
    using assms by (simp add: terminated_def)
  ultimately show ?thesis by blast
qed

theorem termination_rejects_all_pending_witness:
  "settlements (fst (step Terminated
      (snd (run [CallSend 0 ''Page.enable'' JUndefined, CallSend 1 ''Page.reload'' JUndefined]
             (new_Connection 7 False :: handler Connection))))) =
     [(7, Reject ConnectionClosed), (8, Reject ConnectionClosed)]
   \<and> fst (run [CallSend 2 ''Page.reload'' JUndefined, Inbound (response 7 JNull None),
              CallSend 3 ''Page.enable'' JUndefined]
        (snd (step Terminated
          (snd (run [CallSend 0 ''Page.enable'' JUndefined, CallSend 1 ''Page.reload'' JUndefined]
             (new_Connection 7 False :: handler Connection)))))) =
     [[Refused ConnectionClosed], [], [Refused ConnectionClosed]]"
  using termination_rejects_all_pending
     [of "snd (run [CallSend 0 ''Page.enable'' JUndefined, CallSend 1 ''Page.reload'' JUndefined]
             (new_Connection 7 False :: handler Connection))"
         "[CallSend 2 ''Page.reload'' JUndefined, Inbound (response 7 JNull None),
           CallSend 3 ''Page.enable'' JUndefined]"]
  by (simp add: new_Connection_def send_def Let_def)

subsection \<open>The Logging Mode\<close>

lemma step_logging:
  "is_logging op \<Longrightarrow> (snd (step op c))\<lparr>loggingMode := False\<rparr> = c\<lparr>loggingMode := False\<rparr>"
  by (cases op) (simp_all add: setLoggingMode_def)

lemma filter_trace_map_Invoked [simp]:
  "filter (\<lambda>e. \<not> is_trace e) (map (\<lambda>h. Invoked h p) hs) = map (\<lambda>h. Invoked h p) hs"
  by (induction hs) simp_all

lemma filter_trace_map_Settled [simp]:
  "filter (\<lambda>e. \<not> is_trace e) (map (\<lambda>pc. Settled (f pc) r) pcs) = map (\<lambda>pc. Settled (f pc) r) pcs"
  by (induction pcs) simp_all

lemma step_not_logging:
  "\<not> is_logging op \<Longrightarrow>
   filter (\<lambda>e. \<not> is_trace e) (fst (step op c)) = fst (step op (c\<lparr>loggingMode := False\<rparr>))
   \<and> (snd (step op c))\<lparr>loggingMode := False\<rparr> = snd (step op (c\<lparr>loggingMode := False\<rparr>))"
  by (cases op)
     (simp_all add: send_def on_def receive_def terminated_def Let_def split: option.split)

lemma observe_Cons:
  "observe (op # ops) c =
    (if is_logging op then observe ops (snd (step op c))
     else filter (\<lambda>e. \<not> is_trace e) (fst (step op c)) # observe ops (snd (step op c)))"
  by (simp split: prod.split)

lemma observe_normal:
  "observe ops c = fst (run (filter (\<lambda>op. \<not> is_logging op) ops) (c\<lparr>loggingMode := False\<rparr>))"
proof (induction ops arbitrary: c)
  case Nil
  then show ?case by simp
next
  case (Cons op ops)
  show ?case
  proof (cases "is_logging op")
    case True
    from step_logging [OF True, of c] Cons.IH [of "snd (step op c)"] True
    show ?thesis by (simp only: observe_Cons) simp
  next
    case False
    from step_not_logging [OF False, of c] Cons.IH [of "snd (step op c)"] False
    show ?thesis
      by (simp only: observe_Cons) (simp add: fst_run_Cons snd_run_Cons del: run.simps)
  qed
qed

text \<open>
  C5. Two runs of a Connection that differ only in their calls of \<open>setLoggingMode\<close>
  (and in the Logging Mode they start with) show the same: step by step, apart from the
  calls of \<open>setLoggingMode\<close>, the same messages written, the same promises settled with
  the same outcomes at the same steps, and the same handlers invoked in the same order
  with the same payloads. Only the diagnostic sink differs.
\<close>

theorem logging_mode_does_not_interfere:
  assumes "filter (\<lambda>op. \<not> is_logging op) ops = filter (\<lambda>op. \<not> is_logging op) ops'"
  shows "observe ops (c\<lparr>loggingMode := l\<rparr>) = observe ops' (c\<lparr>loggingMode := l'\<rparr>)"
  using assms by (simp add: observe_normal)

theorem logging_mode_does_not_interfere_witness:
  "observe [CallSend 0 ''Page.reload'' JUndefined, CallSetLoggingMode True,
            Inbound (response 1 (JObj []) None)]
     ((new_Connection 1 False :: handler Connection)\<lparr>loggingMode := False\<rparr>) =
   observe [CallSetLoggingMode True, CallSend 0 ''Page.reload'' JUndefined,
            CallSetLoggingMode False, Inbound (response 1 (JObj []) None), CallSetLoggingMode True]
     ((new_Connection 1 False :: handler Connection)\<lparr>loggingMode := True\<rparr>)"
  using logging_mode_does_not_interfere
     [where ops = "[CallSend 0 ''Page.reload'' JUndefined, CallSetLoggingMode True,
            Inbound (response 1 (JObj []) None)]"
        and ops' = "[CallSetLoggingMode True, CallSend 0 ''Page.reload'' JUndefined,
            CallSetLoggingMode False, Inbound (response 1 (JObj []) None), CallSetLoggingMode True]"
        and c = "new_Connection 1 False :: handler Connection" and l = False and l' = True]
  by simp

section \<open>Toolbar actions\<close>

text \<open>
  C7. For the action \<open>urlChange\<close> with a payload \<open>data\<close> (an object, so that
  \<open>data.url\<close> can be read), the App sends exactly one command, \<open>Page.navigate\<close> with
  params \<open>{url: data.url}\<close>, and sets \<open>state.url\<close> to \<open>data.url\<close>, changing
  nothing else; \<open>forward\<close>, \<open>backward\<close> and \<open>refresh\<close> send \<open>Page.goForward\<close>,
  \<open>Page.goBackward\<close> and \<open>Page.reload\<close>, each alone, with no params, and leave the
  state as it is.
\<close>

theorem toolbar_actions:
  "(get data ''url'' = Inr u \<longrightarrow>
      onToolbarActionInvoked ''urlChange'' data st =
        returns (st\<lparr>url := u\<rparr>) [Send ''Page.navigate'' (JObj [(''url'', u)]) Ignore])
   \<and> onToolbarActionInvoked ''forward'' data st =
        returns st [Send ''Page.goForward'' JUndefined Ignore]
   \<and> onToolbarActionInvoked ''backward'' data st =
        returns st [Send ''Page.goBackward'' JUndefined Ignore]
   \<and> onToolbarActionInvoked ''refresh'' data st =
        returns st [Send ''Page.reload'' JUndefined Ignore]"
  by (simp add: onToolbarActionInvoked_def)

theorem toolbar_actions_witness:
  "onToolbarActionInvoked ''urlChange'' (JObj [(''url'', JStr ''example.org'')]) initial_state =
     returns (initial_state\<lparr>url := JStr ''example.org''\<rparr>)
       [Send ''Page.navigate'' (JObj [(''url'', JStr ''example.org'')]) Ignore]"
  using toolbar_actions [of "JObj [(''url'', JStr ''example.org'')]" "JStr ''example.org''" initial_state]
  by simp

section \<open>Screencast frames\<close>

text \<open>
  C8. For a \<open>Page.screencastFrame\<close> event whose payload is an object with the
  properties \<open>sessionId\<close>, \<open>data\<close> and \<open>metadata\<close> (a missing one reads as
  \<open>undefined\<close>), the handler sends exactly one command, \<open>Page.screencastFrameAck\<close>
  with params \<open>{sessionId}\<close> of the frame received, and sets \<open>state.frame\<close> to
  \<open>{base64Data: data, metadata: metadata}\<close>, changing nothing else.
\<close>

theorem screencastFrame_ack:
  assumes "get result ''sessionId'' = Inr sessionId"
    and "get result ''data'' = Inr data"
    and "get result ''metadata'' = Inr metadata"
  shows "handle OnScreencastFrame result st =
     returns (st\<lparr>frame := JObj [(''base64Data'', data), (''metadata'', metadata)]\<rparr>)
       [Send ''Page.screencastFrameAck'' (JObj [(''sessionId'', sessionId)]) Ignore]"
  using assms by (simp add: onScreencastFrame_def)

theorem screencastFrame_ack_witness:
  "handle OnScreencastFrame
     (JObj [(''data'', JStr ''/9j/4AAQ''), (''metadata'', JObj [(''pageScaleFactor'', JNum 1)]),
            (''sessionId'', JNum 4)])
     initial_state =
   returns
     (initial_state\<lparr>frame := JObj [(''base64Data'', JStr ''/9j/4AAQ''),
                                    (''metadata'', JObj [(''pageScaleFactor'', JNum 1)])]\<rparr>)
     [Send ''Page.screencastFrameAck'' (JObj [(''sessionId'', JNum 4)]) Ignore]"
  by (rule screencastFrame_ack) simp_all

section \<open>Frame navigation\<close>

text \<open>
  C10. For a \<open>Page.frameNavigated\<close> event whose payload has a \<open>frame\<close> whose
  \<open>parentId\<close> can be read: when \<open>parentId\<close> is truthy (a subframe), the handler
  leaves the whole state unchanged and sends nothing; when it is absent or falsy, the
  handler sends \<open>Page.getNavigationHistory\<close> (and nothing else) and sets
  \<open>viewportMetadata.isLoading\<close> to true and \<open>loadingPercent\<close> to 0.1, every other
  field of the state staying as it was.
\<close>

theorem frameNavigated_main_frame_only:
  assumes "get result ''frame'' = Inr frame'"
    and "get frame' ''parentId'' = Inr parentId"
  shows "handle OnFrameNavigated result st =
     (if truthy parentId then returns st []
      else returns
        (st\<lparr>viewportMetadata := (viewportMetadata st)\<lparr>isLoading := True, loadingPercent := 0.1\<rparr>\<rparr>)
        [Send ''Page.getNavigationHistory'' JUndefined AwaitNavigationHistory])"
  using assms
  by (simp add: onFrameNavigated_def requestNavigationHistory_def returns_def)

theorem frameNavigated_main_frame_only_witness:
  "handle OnFrameNavigated (JObj [(''frame'', JObj [(''id'', JStr ''A1''), (''parentId'', JStr ''A0'')])])
     initial_state = returns initial_state []
   \<and> handle OnFrameNavigated (JObj [(''frame'', JObj [(''id'', JStr ''A0'')])]) initial_state =
     returns
       (initial_state\<lparr>viewportMetadata :=
          (viewportMetadata initial_state)\<lparr>isLoading := True, loadingPercent := 0.1\<rparr>\<rparr>)
       [Send ''Page.getNavigationHistory'' JUndefined AwaitNavigationHistory]"
  using frameNavigated_main_frame_only
          [of "JObj [(''frame'', JObj [(''id'', JStr ''A1''), (''parentId'', JStr ''A0'')])]"
              "JObj [(''id'', JStr ''A1''), (''parentId'', JStr ''A0'')]" "JStr ''A0''" initial_state]
        frameNavigated_main_frame_only
          [of "JObj [(''frame'', JObj [(''id'', JStr ''A0'')])]"
              "JObj [(''id'', JStr ''A0'')]" JUndefined initial_state]
  by simp

section \<open>Viewport size changes\<close>

text \<open>
  C6. For the viewport callback \<open>size\<close> with data whose \<open>width\<close> and \<open>height\<close> are
  numbers \<open>w\<close> and \<open>h\<close>, the App sends, in this order and nothing else,
  \<open>Page.stopScreencast\<close> and \<open>Page.setDeviceMetricsOverride\<close> with params
  \<open>{deviceScaleFactor: 2, height: floor(h), mobile: false, width: floor(w)}\<close>, and
  leaves its state as it is. When the promise of the second call resolves, and only
  then (a rejection does nothing), it sets \<open>viewportMetadata.height\<close> and \<open>width\<close>
  to \<open>h\<close> and \<open>w\<close> and sends \<open>Page.startScreencast\<close> with \<open>format\<close> \<open>jpeg\<close>,
  \<open>maxWidth\<close> the floor of the product of \<open>w\<close> and \<open>devicePixelRatio\<close>, and
  \<open>maxHeight\<close> the floor of the product of \<open>h\<close> and \<open>devicePixelRatio\<close>. (The
  callback runs as a promise continuation, where \<open>setState\<close> is applied before
  \<open>startCasting\<close> reads the state.)
\<close>

theorem size_change_choreography:
  assumes "get data ''width'' = Inr (JNum w)"
    and "get data ''height'' = Inr (JNum h)"
  shows "onViewportChanged ''size'' data st =
      returns st
        [Send ''Page.stopScreencast'' JUndefined Ignore,
         Send ''Page.setDeviceMetricsOverride''
           (JObj [(''deviceScaleFactor'', JNum 2),
                  (''height'', JNum (of_int \<lfloor>h\<rfloor>)),
                  (''mobile'', JBool False),
                  (''width'', JNum (of_int \<lfloor>w\<rfloor>))])
           (ThenSize data)]
    \<and> resume env (ThenSize data) (Resolved v) st' =
      returns
        (st'\<lparr>viewportMetadata := (viewportMetadata st')\<lparr>height := JNum h, width := JNum w\<rparr>\<rparr>)
        [Send ''Page.startScreencast''
           (JObj [(''format'', JStr ''jpeg''),
                  (''maxWidth'', JNum (of_int \<lfloor>multiply env w (devicePixelRatio env)\<rfloor>)),
                  (''maxHeight'', JNum (of_int \<lfloor>multiply env h (devicePixelRatio env)\<rfloor>))])
           Ignore]
    \<and> resume env (ThenSize data) (Rejected e) st' = returns st' []"
  using assms
  by (simp add: onViewportChanged_def stopCasting_def onViewportChanged_then_def
        startCasting_def returns_def)

theorem size_change_choreography_witness:
  "onViewportChanged ''size'' (JObj [(''width'', JNum (1201 / 2)), (''height'', JNum 400)])
      initial_state =
      returns initial_state
        [Send ''Page.stopScreencast'' JUndefined Ignore,
         Send ''Page.setDeviceMetricsOverride''
           (JObj [(''deviceScaleFactor'', JNum 2), (''height'', JNum 400),
                  (''mobile'', JBool False), (''width'', JNum 600)])
           (ThenSize (JObj [(''width'', JNum (1201 / 2)), (''height'', JNum 400)]))]
   \<and> resume \<lparr>devicePixelRatio = 3 / 2, multiply = (\<lambda>x y. x * y)\<rparr>
        (ThenSize (JObj [(''width'', JNum (1201 / 2)), (''height'', JNum 400)]))
        (Resolved (JObj [])) initial_state =
      returns
        (initial_state\<lparr>viewportMetadata :=
           (viewportMetadata initial_state)\<lparr>height := JNum 400, width := JNum (1201 / 2)\<rparr>\<rparr>)
        [Send ''Page.startScreencast''
           (JObj [(''format'', JStr ''jpeg''), (''maxWidth'', JNum 900), (''maxHeight'', JNum 600)])
           Ignore]"
  using size_change_choreography
          [of "JObj [(''width'', JNum (1201 / 2)), (''height'', JNum 400)]" "1201 / 2" 400
              initial_state "\<lparr>devicePixelRatio = 3 / 2, multiply = (\<lambda>x y. x * y)\<rparr>"
              "JObj []" initial_state]
  by simp

section \<open>The navigation history\<close>

lemma dot_plus_line_terminator_free: "line_terminator_free s \<Longrightarrow> dot_plus s = s"
  by (induction s) auto

lemma line_terminator_free_drop: "line_terminator_free s \<Longrightarrow> line_terminator_free (drop n s)"
proof (induction s arbitrary: n)
  case Nil
  then show ?case by simp
next
  case (Cons c cs)
  then show ?case by (cases n) simp_all
qed

lemma match_pattern_line_terminator_free:
  assumes "line_terminator_free s"
  shows "match_pattern s =
    (if take 7 s = ''http://'' \<and> drop 7 s \<noteq> [] then Some (drop 7 s) else None)"
  using dot_plus_line_terminator_free [OF line_terminator_free_drop [OF assms, of 7]]
  by (simp add: match_pattern_def)

lemma canGoForward_index:
  "i < length (entries :: jsval list) \<Longrightarrow>
   (JNum (of_nat i) = JNum (of_nat (length entries) - 1)) = (i = length entries - 1)"
proof -
  assume "i < length entries"
  then have "(real i = real (length entries) - 1) = (i + 1 = length entries)"
    by linarith
  with \<open>i < length entries\<close> show ?thesis by auto
qed

text \<open>
  C9, as the code has it. When \<open>Page.getNavigationHistory\<close> resolves with a truthy
  payload whose \<open>currentIndex\<close> is an index \<open>i\<close> of its array \<open>entries\<close>, and the
  entry there has a string \<open>url\<close> and a \<open>title\<close> that is a string when truthy,
  \<open>requestNavigationHistory\<close> sets \<open>history.canGoBack\<close> to \<open>i === 0\<close> and
  \<open>history.canGoForward\<close> to \<open>i === entries.length - 1\<close>, sends
  \<open>extension.updateTitle\<close> with the title \<open>Browser Preview (\<close>, then the entry's
  title if truthy and its unstripped url otherwise, then \<open>)\<close>, and sets \<open>state.url\<close>
  to what the pattern leaves of the entry's url. For a url free of line terminators
  that is: the url without its leading \<open>http://\<close> when the url starts with
  \<open>http://\<close> and at least one character follows, and the url unchanged otherwise;
  so \<open>http://\<close> alone is stored as it is.
\<close>

theorem navigation_history_resolved:
  assumes "truthy history'"
    and "get history' ''currentIndex'' = Inr (JNum (of_nat i))"
    and "get history' ''entries'' = Inr (JArr entries)"
    and "i < length entries"
    and "get (entries ! i) ''url'' = Inr (JStr u)"
    and "get (entries ! i) ''title'' = Inr title"
    and "truthy title \<longrightarrow> title = JStr t"
  shows "resume env AwaitNavigationHistory (Resolved history') st =
      returns
        (st\<lparr>url := JStr (case match_pattern u of Some g \<Rightarrow> g | None \<Rightarrow> u),
            history := \<lparr>canGoBack = (i = 0), canGoForward = (i = length entries - 1)\<rparr>\<rparr>)
        [Send ''extension.updateTitle''
           (JObj [(''title'',
                   JStr (''Browser Preview ('' @ (if truthy title then t else u) @ '')''))])
           Ignore]
    \<and> (line_terminator_free u \<longrightarrow>
          (case match_pattern u of Some g \<Rightarrow> g | None \<Rightarrow> u) =
          (if take 7 u = ''http://'' \<and> drop 7 u \<noteq> [] then drop 7 u else u))"
proof -
  have idx: "js_index (JArr entries) (JNum (of_nat i)) = Inr (entries ! i)"
    using assms(4) by simp
  have fwd: "(JNum (of_nat i) = JNum (of_nat (length entries) - 1)) = (i = length entries - 1)"
    using assms(4) by (rule canGoForward_index)
  have bwd: "(JNum (real i) = JNum 0) = (i = 0)"
    by simp
  have shown: "panel_title (js_or title (JStr u)) =
      Inr (JStr (''Browser Preview ('' @ (if truthy title then t else u) @ '')''))"
    using assms(7) by (auto simp: js_or_def)
  have run: "requestNavigationHistory_resumed history' st =
      returns
        (st\<lparr>url := JStr (case match_pattern u of Some g \<Rightarrow> g | None \<Rightarrow> u),
            history := \<lparr>canGoBack = (i = 0), canGoForward = (i = length entries - 1)\<rparr>\<rparr>)
        [Send ''extension.updateTitle''
           (JObj [(''title'',
                   JStr (''Browser Preview ('' @ (if truthy title then t else u) @ '')''))])
           Ignore]"
    unfolding requestNavigationHistory_resumed_def
    using assms(1,2,3,5,6) idx fwd bwd shown
    by (simp add: Let_def split: option.split)
  have stored: "line_terminator_free u \<longrightarrow>
      (case match_pattern u of Some g \<Rightarrow> g | None \<Rightarrow> u) =
      (if take 7 u = ''http://'' \<and> drop 7 u \<noteq> [] then drop 7 u else u)"
    by (simp add: match_pattern_line_terminator_free)
  from run stored show ?thesis by simp
qed

theorem navigation_history_resolved_witness:
  "resume \<lparr>devicePixelRatio = 2, multiply = (\<lambda>x y. x * y)\<rparr> AwaitNavigationHistory
      (Resolved (JObj [(''currentIndex'', JNum 1),
         (''entries'',
          JArr [JObj [(''url'', JStr ''about:blank''), (''title'', JStr '''')],
                JObj [(''url'', JStr ''http://example.org/''), (''title'', JStr ''Example'')]])]))
      initial_state =
    returns
      (initial_state\<lparr>url := JStr ''example.org/'',
          history := \<lparr>canGoBack = False, canGoForward = True\<rparr>\<rparr>)
      [Send ''extension.updateTitle'' (JObj [(''title'', JStr ''Browser Preview (Example)'')]) Ignore]"
  using navigation_history_resolved
     [of "JObj [(''currentIndex'', JNum 1),
           (''entries'',
            JArr [JObj [(''url'', JStr ''about:blank''), (''title'', JStr '''')],
                  JObj [(''url'', JStr ''http://example.org/''), (''title'', JStr ''Example'')]])]"
         1
         "[JObj [(''url'', JStr ''about:blank''), (''title'', JStr '''')],
           JObj [(''url'', JStr ''http://example.org/''), (''title'', JStr ''Example'')]]"
         "''http://example.org/''" "JStr ''Example''" "''Example''"
         "\<lparr>devicePixelRatio = 2, multiply = (\<lambda>x y. x * y)\<rparr>" initial_state]
  by (simp add: match_pattern_def)

text \<open>
  C9 as the specification states it fails: for an entry whose url is \<open>http://\<close> the
  prefix is present, and the url stored is \<open>http://\<close>, not the empty string that
  removing the prefix gives.
\<close>

theorem navigation_history_bare_prefix_kept:
  "url (state (resume \<lparr>devicePixelRatio = 2, multiply = (\<lambda>x y. x * y)\<rparr> AwaitNavigationHistory
          (Resolved (JObj [(''currentIndex'', JNum 0),
             (''entries'', JArr [JObj [(''url'', JStr ''http://''), (''title'', JStr ''Home'')]])]))
          initial_state)) = JStr ''http://''
   \<and> JStr ''http://'' \<noteq> JStr (without_http_prefix ''http://'')"
  by (simp add: requestNavigationHistory_resumed_def match_pattern_def without_http_prefix_def
        returns_def js_or_def)

end
